theory Spec2Isabelle
  imports Main
begin

section \<open>Values shared by the two variants of the component\<close>

text \<open>
  The repository holds two variants of one React component \<open>App\<close>:
  \<^item> \<^verbatim>\<open>src/unnamed/part_000\<close>, with the Expo Go pre-check, the lazily loaded NFC manager,
    the \<open>isMounted\<close> flag and the retry timer (called the retry variant below);
  \<^item> \<^verbatim>\<open>src/src/App_new.js\<close>, without any of these (its definitions carry the suffix
    \<open>_new\<close>).

  A value thrown by the provider is an object whose \<open>message\<close> property is a string or is
  missing (\<open>None\<close>); thrown \<open>null\<close> and \<open>undefined\<close> are outside the model.
\<close>

datatype js_error = Error (message: "string option")

text \<open>\<^verbatim>\<open>error.message || d\<close>: the missing and the empty message are falsy.\<close>

definition or_default :: "string option \<Rightarrow> string \<Rightarrow> string" where
  "or_default m d = (case m of None \<Rightarrow> d | Some t \<Rightarrow> if t = [] then d else t)"

text \<open>\<^verbatim>\<open>"prefix" + error.message\<close>: a missing message is printed as \<open>undefined\<close>.\<close>

definition plus_message :: "string \<Rightarrow> string option \<Rightarrow> string" where
  "plus_message p m = p @ (case m of None \<Rightarrow> ''undefined'' | Some t \<Rightarrow> t)"

datatype provider_call = IsSupported | IsEnabled | Start | CancelTechnologyRequest

text \<open>
  The points at which an invocation of \<open>checkNfc\<close> is suspended: the three awaited provider
  calls, the awaited manager initialisation of the retry variant, and the time after the
  invocation has returned (where a retry timer may be waiting).
\<close>

datatype susp = AtInit | AtSupported | AtEnabled | AtStart | AfterReturn

text \<open>
  What the environment does during one invocation of \<open>checkNfc\<close>:
  \<^item> \<open>req\<close>: what \<^verbatim>\<open>require("react-native-nfc-manager").default\<close> does if it is evaluated:
    it throws, or yields a truthy (\<open>Inr True\<close>) or falsy (\<open>Inr False\<close>) value;
  \<^item> \<open>sup\<close>, \<open>ena\<close>, \<open>sta\<close>: how \<open>isSupported()\<close>, \<open>isEnabled()\<close> and \<open>start()\<close> settle if
    they are called (\<open>Inl\<close> is a rejection);
  \<^item> \<open>teardown\<close>: the suspension point, if any, during which React runs the effect's
    cleanup function.
\<close>

record attempt =
  req :: "js_error + bool"
  sup :: "js_error + bool"
  ena :: "js_error + bool"
  sta :: "js_error + unit"
  teardown :: "susp option"

text \<open>The state object of \<open>useState\<close>; the retry variant adds two fields to it.\<close>

record capability =
  isSupported :: bool
  isEnabled :: bool
  error :: "string option"
  loading :: bool

record nfc_state = capability +
  platform :: string
  isExpoGo :: bool

text \<open>
  The component together with the part of the world it acts on.
  \<open>nfcState\<close> is the React state and \<open>NfcManager\<close> tells whether the module-level handle is
  set. The other fields record the effects: \<open>calls\<close> the provider calls issued so far,
  \<open>history\<close> every state the component has held (oldest first), \<open>scheduled\<close> the delay of
  every \<open>setTimeout\<close> call, \<open>armed\<close> the timers that have neither fired nor been cleared,
  \<open>unmounted\<close> whether the cleanup function has run, and \<open>late_updates\<close> the number of
  \<open>setNfcState\<close> calls issued after it ran.
\<close>

record 'st app =
  nfcState :: 'st
  NfcManager :: bool
  calls :: "provider_call list"
  history :: "'st list"
  scheduled :: "nat list"
  armed :: "nat list"
  unmounted :: bool
  late_updates :: nat

definition setNfcState :: "('st \<Rightarrow> 'st) \<Rightarrow> ('st, 'z) app_scheme \<Rightarrow> ('st, 'z) app_scheme" where
  "setNfcState f s =
     s\<lparr>nfcState := f (nfcState s),
       history := history s @ [f (nfcState s)],
       late_updates := (if unmounted s then Suc (late_updates s) else late_updates s)\<rparr>"

definition call :: "provider_call \<Rightarrow> ('st, 'z) app_scheme \<Rightarrow> ('st, 'z) app_scheme" where
  "call c s = s\<lparr>calls := calls s @ [c]\<rparr>"

section \<open>The retry variant (src/unnamed/part_000)\<close>

text \<open>
  The host: \<open>__DEV__\<close>, \<open>global.expo?.modules?.constants?.executionEnvironment\<close> (\<open>None\<close> when
  the chain is undefined) and \<open>Platform.OS\<close>.
\<close>

record host =
  DEV :: bool
  executionEnvironment :: "string option"
  Platform_OS :: string

text \<open>The module-level constant \<open>isExpoGo\<close> (the state field of that name is above).\<close>

definition module_isExpoGo :: "host \<Rightarrow> bool" where
  "module_isExpoGo h = (DEV h \<and> executionEnvironment h = Some ''storeClient'')"

definition maxRetries :: nat where
  "maxRetries = 3"

text \<open>
  The retry variant adds the ref \<open>retryCount\<close>, the closure variables \<open>isMounted\<close> and
  \<open>retryTimeout\<close> of the effect, and the module-level \<open>isInitializing\<close> and \<open>initPromise\<close>
  (the promise is kept as its outcome).
\<close>

record 'st app_retry = "'st app" +
  retryCount :: nat
  isMounted :: bool
  retryTimeout :: "nat option"
  isInitializing :: bool
  initPromise :: "(js_error + bool) option"

type_synonym retry_app = "nfc_state app_retry"

text \<open>
  \<open>initializeNfcManager\<close>. The executor of the promise runs at once, so \<open>require\<close> is
  evaluated inside the call and \<open>isInitializing\<close> is false again when the call returns.
  The result is the outcome of the returned promise; \<open>Inr\<close> carries the truthiness of the
  manager. Returning a null \<open>initPromise\<close> resolves to a falsy manager.
\<close>

definition initializeNfcManager ::
  "host \<Rightarrow> js_error + bool \<Rightarrow> retry_app \<Rightarrow> (js_error + bool) \<times> retry_app" where
  "initializeNfcManager h r s =
     (if module_isExpoGo h then
        (Inl (Error (Some ''NFC is not supported in Expo Go. Please use a development build.'')), s)
      else if NfcManager s then (Inr True, s)
      else if isInitializing s then
        (case initPromise s of None \<Rightarrow> (Inr False, s) | Some p \<Rightarrow> (p, s))
      else
        (case r of
           Inl e \<Rightarrow> (Inl e, s\<lparr>isInitializing := False, initPromise := Some (Inl e)\<rparr>)
         | Inr m \<Rightarrow>
             (Inr m, s\<lparr>NfcManager := m, isInitializing := False, initPromise := Some (Inr m)\<rparr>)))"

text \<open>
  Every state update of the retry variant has the shape
  \<^verbatim>\<open>prev => ({...prev, isSupported: a, isEnabled: b, error: e, loading: false})\<close>.
\<close>

definition patch :: "bool \<Rightarrow> bool \<Rightarrow> string option \<Rightarrow> nfc_state \<Rightarrow> nfc_state" where
  "patch a b e prev = prev\<lparr>isSupported := a, isEnabled := b, error := e, loading := False\<rparr>"

text \<open>\<open>setTimeout(checkNfc, d)\<close>: timer handles are positive numbers, hence truthy.\<close>

definition setTimeout :: "nat \<Rightarrow> retry_app \<Rightarrow> retry_app" where
  "setTimeout d s =
     (let t = Suc (length (scheduled s))
      in s\<lparr>scheduled := scheduled s @ [d], armed := armed s @ [t], retryTimeout := Some t\<rparr>)"

text \<open>
  The cleanup function returned by the effect. The promise of
  \<open>cancelTechnologyRequest()\<close> is given an empty rejection handler and a synchronous throw
  is caught, so only the call itself is recorded.
\<close>

definition cleanup :: "retry_app \<Rightarrow> retry_app" where
  "cleanup s =
     (let s1 = s\<lparr>isMounted := False, unmounted := True\<rparr>;
          s2 = (case retryTimeout s1 of
                  None \<Rightarrow> s1
                | Some t \<Rightarrow> s1\<lparr>armed := removeAll t (armed s1)\<rparr>)
      in if NfcManager s2 then call CancelTechnologyRequest s2 else s2)"

text \<open>A suspension point: React runs the cleanup there if the script says so, once.\<close>

definition await :: "susp \<Rightarrow> attempt \<Rightarrow> retry_app \<Rightarrow> retry_app" where
  "await p a s = (if teardown a = Some p \<and> \<not> unmounted s then cleanup s else s)"

text \<open>The handler of the outer \<open>try\<close>, the only place where a retry is scheduled.\<close>

definition catch_error :: "host \<Rightarrow> js_error \<Rightarrow> retry_app \<Rightarrow> retry_app" where
  "catch_error h e s =
     (if isMounted s then
        (let s1 = setNfcState
                    (patch False False (Some (or_default (message e) ''Failed to check NFC support''))) s
         in if \<not> module_isExpoGo h \<and> retryCount s1 < maxRetries
            then setTimeout 2000 (s1\<lparr>retryCount := retryCount s1 + 1\<rparr>)
            else s1)
      else s)"

definition catch_enableError :: "js_error \<Rightarrow> retry_app \<Rightarrow> retry_app" where
  "catch_enableError e s =
     (if isMounted s then
        setNfcState (patch True False (Some (plus_message ''Failed to check NFC status: '' (message e)))) s
      else s)"

definition catch_startError :: "js_error \<Rightarrow> retry_app \<Rightarrow> retry_app" where
  "catch_startError e s =
     (if isMounted s then
        setNfcState (patch True True (Some (plus_message ''Failed to start NFC: '' (message e)))) s
      else s)"

text \<open>One invocation of the async function \<open>checkNfc\<close>, up to its return.\<close>

definition checkNfc :: "host \<Rightarrow> attempt \<Rightarrow> retry_app \<Rightarrow> retry_app" where
  "checkNfc h a s =
     (if module_isExpoGo h then
        (if isMounted s then
           setNfcState
             (patch False False
                (Some ''NFC is not supported in Expo Go. Please use a development build.'')) s
         else s)
      else
        (case initializeNfcManager h (req a) s of (r, s1) \<Rightarrow>
         let s2 = await AtInit a s1 in
         case r of
           Inl e \<Rightarrow> catch_error h e s2
         | Inr manager \<Rightarrow>
             if \<not> manager then catch_error h (Error (Some ''Failed to initialize NFC Manager'')) s2
             else
               (let s3 = await AtSupported a (call IsSupported s2) in
                case sup a of
                  Inl e \<Rightarrow> catch_error h e s3
                | Inr hasNfc \<Rightarrow>
                    if \<not> hasNfc then
                      (if isMounted s3 then
                         setNfcState
                           (patch False False (Some ''This device does not have NFC hardware'')) s3
                       else s3)
                    else
                      (let s4 = await AtEnabled a (call IsEnabled s3) in
                       case ena a of
                         Inl e \<Rightarrow> catch_enableError e s4
                       | Inr enabled \<Rightarrow>
                           if \<not> enabled then
                             (if isMounted s4 then
                                setNfcState
                                  (patch True False
                                     (Some ''NFC is not enabled. Please enable NFC in your device settings.'')) s4
                              else s4)
                           else
                             (let s5 = await AtStart a (call Start s4) in
                              case sta a of
                                Inl e \<Rightarrow> catch_startError e s5
                              | Inr _ \<Rightarrow>
                                  (if isMounted s5 then setNfcState (patch True True None) s5
                                   else s5)\<lparr>retryCount := 0\<rparr>)))))"

text \<open>
  The timers: while one is armed and the script goes on, it fires and \<open>checkNfc\<close> runs
  again. After each invocation the cleanup may run before the next timer fires.
\<close>

fun run_timers :: "host \<Rightarrow> attempt list \<Rightarrow> retry_app \<Rightarrow> retry_app" where
  "run_timers h [] s = s"
| "run_timers h (a # as) s =
     (case armed s of
        [] \<Rightarrow> s
      | t # _ \<Rightarrow>
          run_timers h as (await AfterReturn a (checkNfc h a (s\<lparr>armed := removeAll t (armed s)\<rparr>))))"

text \<open>
  The component at mount: the initial state of \<open>useState\<close>, a fresh ref and fresh closure
  variables. The module-level handle may be left set by an earlier mount (\<open>m\<close>).
\<close>

definition mount :: "host \<Rightarrow> bool \<Rightarrow> retry_app" where
  "mount h m =
     (let st = \<lparr>isSupported = False, isEnabled = False, error = None, loading = True,
                platform = Platform_OS h, isExpoGo = module_isExpoGo h\<rparr>
      in \<lparr>nfcState = st, NfcManager = m, calls = [], history = [st], scheduled = [],
          armed = [], unmounted = False, late_updates = 0,
          retryCount = 0, isMounted = True, retryTimeout = None,
          isInitializing = False, initPromise = None\<rparr>)"

text \<open>The effect: the first invocation \<open>a\<close> of \<open>checkNfc\<close>, then the timers.\<close>

definition App_effect :: "host \<Rightarrow> bool \<Rightarrow> attempt \<Rightarrow> attempt list \<Rightarrow> retry_app" where
  "App_effect h m a as = run_timers h as (await AfterReturn a (checkNfc h a (mount h m)))"

section \<open>The variant without retry (src/src/App_new.js)\<close>

type_synonym new_app = "capability app"

definition cleanup_new :: "new_app \<Rightarrow> new_app" where
  "cleanup_new s =
     (let s1 = s\<lparr>unmounted := True\<rparr>
      in if NfcManager s1 then call CancelTechnologyRequest s1 else s1)"

definition await_new :: "susp \<Rightarrow> attempt \<Rightarrow> new_app \<Rightarrow> new_app" where
  "await_new p a s = (if teardown a = Some p \<and> \<not> unmounted s then cleanup_new s else s)"

text \<open>
  \<open>checkNfc\<close> of App_new.js. Each update replaces the whole state object. The field \<open>req\<close>
  of the script is not used: the module is required once, when the file is loaded.
\<close>

definition checkNfc_new :: "attempt \<Rightarrow> new_app \<Rightarrow> new_app" where
  "checkNfc_new a s =
     (if \<not> NfcManager s then
        setNfcState
          (\<lambda>_. \<lparr>isSupported = False, isEnabled = False,
                error = Some ''NFC module not available. Please use a development build.'',
                loading = False\<rparr>) s
      else
        (let s1 = await_new AtSupported a (call IsSupported s) in
         case sup a of
           Inl e \<Rightarrow>
             setNfcState
               (\<lambda>_. \<lparr>isSupported = False, isEnabled = False,
                     error = Some (or_default (message e) ''Unknown NFC error''),
                     loading = False\<rparr>) s1
         | Inr supported \<Rightarrow>
             if supported then
               (let s2 = await_new AtEnabled a (call IsEnabled s1) in
                case ena a of
                  Inl e \<Rightarrow>
                    setNfcState
                      (\<lambda>_. \<lparr>isSupported = supported, isEnabled = False,
                            error = Some (plus_message ''Failed to check NFC status: '' (message e)),
                            loading = False\<rparr>) s2
                | Inr enabled \<Rightarrow>
                    if enabled then
                      (let s3 = await_new AtStart a (call Start s2) in
                       case sta a of
                         Inl e \<Rightarrow>
                           setNfcState
                             (\<lambda>_. \<lparr>isSupported = supported, isEnabled = enabled,
                                   error = Some (plus_message ''Failed to start NFC: '' (message e)),
                                   loading = False\<rparr>) s3
                       | Inr _ \<Rightarrow>
                           setNfcState
                             (\<lambda>_. \<lparr>isSupported = supported, isEnabled = enabled, error = None,
                                   loading = False\<rparr>) s3)
                    else
                      setNfcState
                        (\<lambda>_. \<lparr>isSupported = supported, isEnabled = enabled, error = None,
                              loading = False\<rparr>) s2)
             else
               setNfcState
                 (\<lambda>_. \<lparr>isSupported = supported, isEnabled = False, error = None,
                       loading = False\<rparr>) s1))"

definition mount_new :: "bool \<Rightarrow> new_app" where
  "mount_new m =
     (let st = \<lparr>isSupported = False, isEnabled = False, error = None, loading = True\<rparr>
      in \<lparr>nfcState = st, NfcManager = m, calls = [], history = [st], scheduled = [],
          armed = [], unmounted = False, late_updates = 0\<rparr>)"

definition App_effect_new :: "bool \<Rightarrow> attempt \<Rightarrow> new_app" where
  "App_effect_new m a = await_new AfterReturn a (checkNfc_new a (mount_new m))"

section \<open>The error taxonomy of the specification\<close>

text \<open>
  The kinds of failure the specification distinguishes. They are not in the source, which
  only has message strings; they are used to state what the source reports.
\<close>

datatype failure =
  RestrictedHost | InitFailed js_error | HardwareAbsent | StatusCheckFailed js_error
  | RadioDisabled | StartFailed js_error

text \<open>
  The first step, in the fixed order initialisation, \<open>isSupported()\<close>, \<open>isEnabled()\<close>,
  \<open>start()\<close>, that fails or answers no; \<open>m\<close> tells whether the manager handle is already
  set, in which case \<open>require\<close> is not evaluated. A rejection of \<open>isSupported()\<close> is an
  initialisation failure: it is thrown before the result of the supported check is handled.
\<close>

definition first_failure :: "bool \<Rightarrow> attempt \<Rightarrow> failure option" where
  "first_failure m a =
     (case (if m then Inr True else req a) of
        Inl e \<Rightarrow> Some (InitFailed e)
      | Inr manager \<Rightarrow>
          if \<not> manager then Some (InitFailed (Error (Some ''Failed to initialize NFC Manager'')))
          else
            (case sup a of
               Inl e \<Rightarrow> Some (InitFailed e)
             | Inr hasNfc \<Rightarrow>
                 if \<not> hasNfc then Some HardwareAbsent
                 else
                   (case ena a of
                      Inl e \<Rightarrow> Some (StatusCheckFailed e)
                    | Inr enabled \<Rightarrow>
                        if \<not> enabled then Some RadioDisabled
                        else (case sta a of Inl e \<Rightarrow> Some (StartFailed e) | Inr _ \<Rightarrow> None))))"

text \<open>The message of each kind in the retry variant.\<close>

fun error_text :: "failure \<Rightarrow> string" where
  "error_text RestrictedHost = ''NFC is not supported in Expo Go. Please use a development build.''"
| "error_text (InitFailed e) = or_default (message e) ''Failed to check NFC support''"
| "error_text HardwareAbsent = ''This device does not have NFC hardware''"
| "error_text (StatusCheckFailed e) = plus_message ''Failed to check NFC status: '' (message e)"
| "error_text RadioDisabled = ''NFC is not enabled. Please enable NFC in your device settings.''"
| "error_text (StartFailed e) = plus_message ''Failed to start NFC: '' (message e)"

text \<open>The \<open>error\<close> field of each kind in App_new.js: a negative answer is no error there.\<close>

fun error_text_new :: "failure \<Rightarrow> string option" where
  "error_text_new (InitFailed e) = Some (or_default (message e) ''Unknown NFC error'')"
| "error_text_new (StatusCheckFailed e) =
     Some (plus_message ''Failed to check NFC status: '' (message e))"
| "error_text_new (StartFailed e) = Some (plus_message ''Failed to start NFC: '' (message e))"
| "error_text_new HardwareAbsent = None"
| "error_text_new RadioDisabled = None"
| "error_text_new RestrictedHost = None"

text \<open>The flags \<open>(isSupported, isEnabled)\<close> that go with each kind.\<close>

fun flags :: "failure \<Rightarrow> bool \<times> bool" where
  "flags (StatusCheckFailed e) = (True, False)"
| "flags RadioDisabled = (True, False)"
| "flags (StartFailed e) = (True, True)"
| "flags (InitFailed e) = (False, False)"
| "flags HardwareAbsent = (False, False)"
| "flags RestrictedHost = (False, False)"

text \<open>Only the initialisation failure is retried.\<close>

fun retryable :: "failure option \<Rightarrow> bool" where
  "retryable (Some (InitFailed e)) = True"
| "retryable (Some RestrictedHost) = False"
| "retryable (Some HardwareAbsent) = False"
| "retryable (Some (StatusCheckFailed e)) = False"
| "retryable (Some RadioDisabled) = False"
| "retryable (Some (StartFailed e)) = False"
| "retryable None = False"

text \<open>The state a mounted invocation of the retry variant leaves for each result.\<close>

definition emitted :: "failure option \<Rightarrow> nfc_state \<Rightarrow> nfc_state" where
  "emitted r prev =
     (case r of
        None \<Rightarrow> patch True True None prev
      | Some f \<Rightarrow> patch (fst (flags f)) (snd (flags f)) (Some (error_text f)) prev)"

text \<open>
  The number of consecutive initialisation failures at the head of a script. The handle
  stays set once \<open>require\<close> has yielded a manager.
\<close>

fun init_failures :: "bool \<Rightarrow> attempt list \<Rightarrow> nat" where
  "init_failures m [] = 0"
| "init_failures m (a # as) =
     (if retryable (first_failure m a) then Suc (init_failures (m \<or> req a = Inr True) as) else 0)"

text \<open>
  The invocation that runs last, with the value of the handle at its start: a further
  invocation follows an initialisation failure while fewer than \<open>maxRetries\<close> retries have
  been made and the script goes on; \<open>c\<close> is the number of retries made so far.
\<close>

fun last_run :: "nat \<Rightarrow> bool \<Rightarrow> attempt \<Rightarrow> attempt list \<Rightarrow> bool \<times> attempt" where
  "last_run c m a [] = (m, a)"
| "last_run c m a (b # bs) =
     (if retryable (first_failure m a) \<and> c < maxRetries
      then last_run (Suc c) (m \<or> req a = Inr True) b bs
      else (m, a))"

section \<open>Invariants\<close>

text \<open>A property of the current state and of every state held before.\<close>

definition hist_all :: "('st \<Rightarrow> bool) \<Rightarrow> ('st, 'z) app_scheme \<Rightarrow> bool" where
  "hist_all P s = (P (nfcState s) \<and> list_all P (history s))"

text \<open>At most one timer is armed, and \<open>retryTimeout\<close> is its handle.\<close>

definition timer_ok :: "retry_app \<Rightarrow> bool" where
  "timer_ok s = (case armed s of [] \<Rightarrow> True | t # ts \<Rightarrow> ts = [] \<and> retryTimeout s = Some t)"

definition consistent :: "retry_app \<Rightarrow> bool" where
  "consistent s =
     (unmounted s = (\<not> isMounted s) \<and> timer_ok s \<and> (isMounted s \<or> armed s = []) \<and>
      late_updates s = 0 \<and> \<not> isInitializing s \<and> retryCount s \<le> maxRetries)"

definition quiet :: "retry_app \<Rightarrow> bool" where
  "quiet s = (consistent s \<and> armed s = [])"

text \<open>A timer fires: its handle leaves \<open>armed\<close> and \<open>checkNfc\<close> runs.\<close>

definition fire :: "host \<Rightarrow> attempt \<Rightarrow> retry_app \<Rightarrow> retry_app" where
  "fire h a s = checkNfc h a (s\<lparr>armed := []\<rparr>)"

text \<open>
  Relations between the state \<open>s\<close> at the start of an invocation and a later state of the
  same invocation: nothing was emitted or scheduled since; the same while the invocation
  is suspended (with \<open>isMounted\<close> false once the cleanup has run); and the same at its end
  in case the cleanup has run.
\<close>

definition untouched :: "retry_app \<Rightarrow> retry_app \<Rightarrow> bool" where
  "untouched s x =
     (nfcState x = nfcState s \<and> history x = history s \<and> scheduled x = scheduled s)"

definition in_flight :: "retry_app \<Rightarrow> retry_app \<Rightarrow> bool" where
  "in_flight s x = (untouched s x \<and> \<not> (unmounted x \<and> isMounted x))"

definition settled :: "retry_app \<Rightarrow> retry_app \<Rightarrow> bool" where
  "settled s y = (unmounted y \<longrightarrow> untouched s y)"

section \<open>Example inputs\<close>

definition android :: host where
  "android = \<lparr>DEV = False, executionEnvironment = None, Platform_OS = ''android''\<rparr>"

definition expo_go :: host where
  "expo_go = \<lparr>DEV = True, executionEnvironment = Some ''storeClient'', Platform_OS = ''ios''\<rparr>"

definition ready :: attempt where
  "ready = \<lparr>req = Inr True, sup = Inr True, ena = Inr True, sta = Inr (), teardown = None\<rparr>"

definition busy :: attempt where
  "busy = ready\<lparr>sta := Inl (Error (Some ''busy''))\<rparr>"

definition radio_off :: attempt where
  "radio_off = ready\<lparr>ena := Inr False\<rparr>"

definition no_hardware :: attempt where
  "no_hardware = ready\<lparr>sup := Inr False\<rparr>"

definition not_ready :: attempt where
  "not_ready = ready\<lparr>sup := Inl (Error (Some ''not ready''))\<rparr>"

definition all_reject :: attempt where
  "all_reject =
     ready\<lparr>sup := Inl (Error (Some ''not ready'')), ena := Inl (Error (Some ''no status'')),
           sta := Inl (Error (Some ''busy''))\<rparr>"

definition status_error :: attempt where
  "status_error = ready\<lparr>ena := Inl (Error None)\<rparr>"

definition left_early :: attempt where
  "left_early = ready\<lparr>teardown := Some AtSupported\<rparr>"

section \<open>Auxiliary lemmas\<close>

lemmas retry_defs = checkNfc_def initializeNfcManager_def await_def cleanup_def catch_error_def
  catch_enableError_def catch_startError_def setNfcState_def call_def setTimeout_def maxRetries_def

lemma checkNfc_mounted:
  assumes "\<not> module_isExpoGo h" "isMounted s" "\<not> unmounted s" "\<not> isInitializing s" "teardown a = None"
  shows "nfcState (checkNfc h a s) = emitted (first_failure (NfcManager s) a) (nfcState s)"
    and "history (checkNfc h a s) = history s @ [emitted (first_failure (NfcManager s) a) (nfcState s)]"
    and "scheduled (checkNfc h a s) = scheduled s @
           (if retryable (first_failure (NfcManager s) a) \<and> retryCount s < 3 then [2000] else [])"
    and "armed (checkNfc h a s) = armed s @
           (if retryable (first_failure (NfcManager s) a) \<and> retryCount s < 3 then [Suc (length (scheduled s))] else [])"
    and "retryTimeout (checkNfc h a s) =
           (if retryable (first_failure (NfcManager s) a) \<and> retryCount s < 3 then Some (Suc (length (scheduled s))) else retryTimeout s)"
    and "retryCount (checkNfc h a s) =
           (if first_failure (NfcManager s) a = None then 0
            else if retryable (first_failure (NfcManager s) a) \<and> retryCount s < 3 then Suc (retryCount s)
            else retryCount s)"
    and "NfcManager (checkNfc h a s) = (NfcManager s \<or> req a = Inr True)"
    and "isMounted (checkNfc h a s)" and "\<not> unmounted (checkNfc h a s)"
    and "\<not> isInitializing (checkNfc h a s)" and "late_updates (checkNfc h a s) = late_updates s"
  using assms
  by (auto simp: retry_defs first_failure_def emitted_def Let_def split: sum.splits)

lemma hist_all_call [simp]: "hist_all P (call c s) = hist_all P s"
  by (simp add: hist_all_def call_def)

lemma hist_all_await [simp]: "hist_all P (await p a s) = hist_all P s"
  by (simp add: hist_all_def await_def cleanup_def call_def Let_def split: option.splits)

lemma hist_all_init [simp]: "hist_all P (snd (initializeNfcManager h r s)) = hist_all P s"
  by (simp add: hist_all_def initializeNfcManager_def split: option.splits sum.splits)

lemma hist_all_set:
  "hist_all P s \<Longrightarrow> P (f (nfcState s)) \<Longrightarrow> hist_all P (setNfcState f s)"
  by (simp add: hist_all_def setNfcState_def)

lemma hist_all_catch_error:
  assumes "\<And>e prev. P prev \<Longrightarrow> P (patch False False e prev)" "hist_all P s"
  shows "hist_all P (catch_error h e s)"
proof -
  have "hist_all P (setNfcState (patch False False x) s)" for x
    using assms by (intro hist_all_set) (simp_all add: hist_all_def)
  then show ?thesis
    using assms(2) by (simp add: catch_error_def Let_def setTimeout_def hist_all_def)
qed

lemma hist_all_checkNfc:
  assumes P: "\<And>a b e prev. P prev \<Longrightarrow> (a \<or> \<not> b) \<Longrightarrow> P (patch a b e prev)"
    and s: "hist_all P s"
  shows "hist_all P (checkNfc h a s)"
proof -
  have set: "hist_all P (setNfcState (patch x y e) t)" if "hist_all P t" "x \<or> \<not> y" for x y e t
    using that P by (intro hist_all_set) (simp_all add: hist_all_def)
  have ce: "hist_all P (catch_error h e t)" if "hist_all P t" for e t
    using that P by (intro hist_all_catch_error) simp_all
  have rc: "hist_all P (t\<lparr>retryCount := 0\<rparr>) = hist_all P t" for t :: retry_app
    by (simp add: hist_all_def)
  obtain r s1 where i: "initializeNfcManager h (req a) s = (r, s1)"
    by (cases "initializeNfcManager h (req a) s")
  have s1: "hist_all P s1"
    using hist_all_init [of P h "req a" s] s i by simp
  show ?thesis
    using s s1 i
    by (simp add: checkNfc_def Let_def catch_enableError_def catch_startError_def set ce rc
        split: sum.splits)
qed

lemma quiet_call: "quiet s \<Longrightarrow> quiet (call c s)"
  by (simp add: quiet_def consistent_def timer_ok_def call_def)

lemma quiet_cleanup: "quiet s \<Longrightarrow> quiet (cleanup s)"
  by (simp add: quiet_def consistent_def timer_ok_def cleanup_def call_def Let_def split: option.splits)

lemma quiet_await: "quiet s \<Longrightarrow> quiet (await p a s)"
  by (simp add: await_def quiet_cleanup)

lemma quiet_init: "quiet s \<Longrightarrow> quiet (snd (initializeNfcManager h r s))"
  by (simp add: quiet_def consistent_def timer_ok_def initializeNfcManager_def split: sum.splits)

lemma quiet_set: "quiet s \<Longrightarrow> isMounted s \<Longrightarrow> quiet (setNfcState f s)"
  by (simp add: quiet_def consistent_def timer_ok_def setNfcState_def)

lemma quiet_reset: "quiet s \<Longrightarrow> quiet (s\<lparr>retryCount := 0\<rparr>)"
  by (simp add: quiet_def consistent_def timer_ok_def)

lemma quiet_consistent: "quiet s \<Longrightarrow> consistent s"
  by (simp add: quiet_def)

lemma consistent_catch_error: "quiet s \<Longrightarrow> consistent (catch_error h e s)"
  by (simp add: quiet_def consistent_def timer_ok_def catch_error_def setNfcState_def
      setTimeout_def Let_def maxRetries_def)

lemma consistent_checkNfc:
  assumes "quiet s"
  shows "consistent (checkNfc h a s)"
proof -
  obtain r s1 where i: "initializeNfcManager h (req a) s = (r, s1)"
    by (cases "initializeNfcManager h (req a) s")
  have s1: "quiet s1"
    using quiet_init [OF assms, of h "req a"] i by simp
  show ?thesis
    using assms s1 i
    by (simp add: checkNfc_def Let_def catch_enableError_def catch_startError_def
        quiet_call quiet_await quiet_set quiet_reset quiet_consistent consistent_catch_error
        split: sum.splits)
qed

lemma consistent_await: "consistent s \<Longrightarrow> consistent (await p a s)"
  by (auto simp: await_def consistent_def timer_ok_def cleanup_def call_def Let_def
      split: option.splits list.splits)

lemma consistent_fire:
  "consistent s \<Longrightarrow> armed s = t # ts \<Longrightarrow> quiet (s\<lparr>armed := removeAll t (armed s)\<rparr>)"
  by (simp add: quiet_def consistent_def timer_ok_def)

lemma consistent_run_timers: "consistent s \<Longrightarrow> consistent (run_timers h as s)"
proof (induction as arbitrary: s)
  case Nil
  then show ?case by simp
next
  case (Cons a as)
  show ?case
  proof (cases "armed s")
    case Nil
    then show ?thesis using Cons.prems by simp
  next
    case (Cons t ts)
    have "consistent (await AfterReturn a (checkNfc h a (s\<lparr>armed := removeAll t (armed s)\<rparr>)))"
      using Cons.prems Cons by (intro consistent_await consistent_checkNfc consistent_fire)
    then show ?thesis
      using Cons Cons.IH by simp
  qed
qed

lemma quiet_mount: "quiet (mount h m)"
  by (simp add: quiet_def consistent_def timer_ok_def mount_def Let_def)

lemma consistent_App_effect: "consistent (App_effect h m a as)"
  unfolding App_effect_def
  by (intro consistent_run_timers consistent_await consistent_checkNfc quiet_mount)

lemma run_timers_idle: "armed s = [] \<Longrightarrow> run_timers h as s = s"
  by (cases as) simp_all

lemma hist_all_run_timers:
  assumes P: "\<And>a b e prev. P prev \<Longrightarrow> (a \<or> \<not> b) \<Longrightarrow> P (patch a b e prev)"
  shows "hist_all P s \<Longrightarrow> hist_all P (run_timers h as s)"
proof (induction as arbitrary: s)
  case Nil
  then show ?case by simp
next
  case (Cons a as)
  show ?case
  proof (cases "armed s")
    case Nil
    then show ?thesis using Cons.prems by simp
  next
    case (Cons t ts)
    have "hist_all P (s\<lparr>armed := removeAll t (armed s)\<rparr>)"
      using Cons.prems by (simp add: hist_all_def)
    then have "hist_all P (await AfterReturn a (checkNfc h a (s\<lparr>armed := removeAll t (armed s)\<rparr>)))"
      using P by (simp add: hist_all_checkNfc)
    then show ?thesis
      using Cons Cons.IH by simp
  qed
qed

lemma emitted_emitted [simp]: "emitted r (emitted r' prev) = emitted r prev"
  by (simp add: emitted_def patch_def split: option.splits)

lemma retryable_Some: "retryable r \<Longrightarrow> r \<noteq> None"
  by (cases r) simp_all

lemma await_none [simp]: "teardown a = None \<Longrightarrow> await p a s = s"
  by (simp add: await_def)

lemma run_timers_step:
  "consistent s \<Longrightarrow> armed s \<noteq> [] \<Longrightarrow> teardown a = None \<Longrightarrow>
   run_timers h (a # as) s = run_timers h as (fire h a s)"
  by (cases "armed s") (auto simp: consistent_def timer_ok_def fire_def)

lemma fire_facts:
  assumes "\<not> module_isExpoGo h" "consistent s" "isMounted s" "teardown a = None"
  shows "consistent (fire h a s)" and "isMounted (fire h a s)"
    and "nfcState (fire h a s) = emitted (first_failure (NfcManager s) a) (nfcState s)"
    and "scheduled (fire h a s) = scheduled s @
           (if retryable (first_failure (NfcManager s) a) \<and> retryCount s < 3 then [2000] else [])"
    and "(armed (fire h a s) \<noteq> []) = (retryable (first_failure (NfcManager s) a) \<and> retryCount s < 3)"
    and "retryCount (fire h a s) =
           (if first_failure (NfcManager s) a = None then 0
            else if retryable (first_failure (NfcManager s) a) \<and> retryCount s < 3 then Suc (retryCount s)
            else retryCount s)"
    and "NfcManager (fire h a s) = (NfcManager s \<or> req a = Inr True)"
proof -
  let ?s0 = "s\<lparr>armed := []\<rparr>"
  have q: "quiet ?s0"
    using assms(2) by (simp add: quiet_def consistent_def timer_ok_def)
  have m: "isMounted ?s0" "\<not> unmounted ?s0" "\<not> isInitializing ?s0"
    using assms(2,3) by (simp_all add: consistent_def)
  note f = checkNfc_mounted [OF assms(1) m assms(4)]
  show "consistent (fire h a s)"
    unfolding fire_def by (rule consistent_checkNfc [OF q])
  show "isMounted (fire h a s)"
    unfolding fire_def using f(8) .
  show "nfcState (fire h a s) = emitted (first_failure (NfcManager s) a) (nfcState s)"
    unfolding fire_def using f(1) by simp
  show "scheduled (fire h a s) = scheduled s @
           (if retryable (first_failure (NfcManager s) a) \<and> retryCount s < 3 then [2000] else [])"
    unfolding fire_def using f(3) by simp
  show "(armed (fire h a s) \<noteq> []) = (retryable (first_failure (NfcManager s) a) \<and> retryCount s < 3)"
    unfolding fire_def using f(4) by simp
  show "retryCount (fire h a s) =
           (if first_failure (NfcManager s) a = None then 0
            else if retryable (first_failure (NfcManager s) a) \<and> retryCount s < 3 then Suc (retryCount s)
            else retryCount s)"
    unfolding fire_def using f(6) by simp
  show "NfcManager (fire h a s) = (NfcManager s \<or> req a = Inr True)"
    unfolding fire_def using f(7) by simp
qed

lemma run_timers_scheduled:
  assumes nx: "\<not> module_isExpoGo h"
  shows "\<forall>a\<in>set as. teardown a = None \<Longrightarrow> consistent s \<Longrightarrow> isMounted s \<Longrightarrow> armed s \<noteq> [] \<Longrightarrow>
    scheduled (run_timers h as s) =
      scheduled s @ replicate (min (3 - retryCount s) (init_failures (NfcManager s) as)) 2000"
proof (induction as arbitrary: s)
  case Nil
  then show ?case by simp
next
  case (Cons a as)
  have td: "teardown a = None" using Cons.prems(1) by simp
  note f = fire_facts [OF nx Cons.prems(2,3) td]
  have step: "run_timers h (a # as) s = run_timers h as (fire h a s)"
    using Cons.prems td by (intro run_timers_step)
  show ?case
  proof (cases "retryable (first_failure (NfcManager s) a) \<and> retryCount s < 3")
    case True
    then have ar: "armed (fire h a s) \<noteq> []" using f(5) by simp
    have ne: "first_failure (NfcManager s) a \<noteq> None" using True by (simp add: retryable_Some)
    have "scheduled (run_timers h as (fire h a s)) =
        scheduled (fire h a s) @
        replicate (min (3 - retryCount (fire h a s)) (init_failures (NfcManager (fire h a s)) as)) 2000"
      using Cons.prems(1) f(1,2) ar by (intro Cons.IH) simp_all
    moreover have "min (3 - retryCount s) (Suc n) = Suc (min (3 - Suc (retryCount s)) n)" for n
      using True by arith
    ultimately show ?thesis
      using True ne step f(4,6,7) by (simp add: replicate_append_same)
  next
    case False
    then have "armed (fire h a s) = []" using f(5) by blast
    then have "run_timers h as (fire h a s) = fire h a s" by (rule run_timers_idle)
    then show ?thesis
      using False step f(4) by auto
  qed
qed

lemma run_timers_last:
  assumes nx: "\<not> module_isExpoGo h"
  shows "\<forall>a\<in>set as. teardown a = None \<Longrightarrow> consistent s \<Longrightarrow> isMounted s \<Longrightarrow> teardown a0 = None \<Longrightarrow>
    nfcState (run_timers h as (fire h a0 s)) =
      (case last_run (retryCount s) (NfcManager s) a0 as of
         (m', a') \<Rightarrow> emitted (first_failure m' a') (nfcState s))"
proof (induction as arbitrary: s a0)
  case Nil
  then show ?case
    using fire_facts(3) [OF nx Nil(2,3,4)] by simp
next
  case (Cons a as)
  have td: "teardown a = None" using Cons.prems(1) by simp
  note f = fire_facts [OF nx Cons.prems(2,3,4)]
  show ?case
  proof (cases "retryable (first_failure (NfcManager s) a0) \<and> retryCount s < 3")
    case True
    then have ar: "armed (fire h a0 s) \<noteq> []" using f(5) by simp
    have ne: "first_failure (NfcManager s) a0 \<noteq> None" using True by (simp add: retryable_Some)
    have step: "run_timers h (a # as) (fire h a0 s) = run_timers h as (fire h a (fire h a0 s))"
      using f(1) ar td by (intro run_timers_step)
    have "nfcState (run_timers h as (fire h a (fire h a0 s))) =
        (case last_run (retryCount (fire h a0 s)) (NfcManager (fire h a0 s)) a as of
           (m', a') \<Rightarrow> emitted (first_failure m' a') (nfcState (fire h a0 s)))"
      using Cons.prems(1) f(1,2) td by (intro Cons.IH) simp_all
    then show ?thesis
      using True ne step f(3,6,7) by (simp add: maxRetries_def split: prod.splits)
  next
    case False
    then have "armed (fire h a0 s) = []" using f(5) by blast
    then have "run_timers h (a # as) (fire h a0 s) = fire h a0 s" by (rule run_timers_idle)
    then show ?thesis
      using False f(3) by (auto simp: maxRetries_def)
  qed
qed

lemmas new_defs = checkNfc_new_def await_new_def cleanup_new_def setNfcState_def call_def

lemma hist_all_mount: "P (nfcState (mount h m)) \<Longrightarrow> hist_all P (mount h m)"
  by (simp add: hist_all_def mount_def Let_def)

lemma hist_all_App_effect:
  assumes "\<And>a b e prev. P prev \<Longrightarrow> (a \<or> \<not> b) \<Longrightarrow> P (patch a b e prev)"
    and "P (nfcState (mount h m))"
  shows "hist_all P (App_effect h m a as)"
  unfolding App_effect_def
  using assms by (intro hist_all_run_timers) (simp_all add: hist_all_checkNfc hist_all_mount)

lemma hist_all_checkNfc_new:
  "hist_all (\<lambda>st. isEnabled st \<longrightarrow> isSupported st) t \<Longrightarrow>
   hist_all (\<lambda>st. isEnabled st \<longrightarrow> isSupported st) (checkNfc_new a t)"
  by (simp add: hist_all_def new_defs Let_def split: sum.splits)

lemma in_flight_call: "in_flight s x \<Longrightarrow> in_flight s (call c x)"
  by (simp add: in_flight_def untouched_def call_def)

lemma in_flight_await: "in_flight s x \<Longrightarrow> in_flight s (await p a x)"
  by (simp add: in_flight_def untouched_def await_def cleanup_def call_def Let_def
      split: option.splits)

lemma in_flight_init: "in_flight s x \<Longrightarrow> in_flight s (snd (initializeNfcManager h r x))"
  by (simp add: in_flight_def untouched_def initializeNfcManager_def split: sum.splits option.splits)

lemma settled_set: "in_flight s x \<Longrightarrow> isMounted x \<Longrightarrow> settled s (setNfcState f x)"
  by (auto simp: in_flight_def settled_def setNfcState_def)

lemma settled_keep: "in_flight s x \<Longrightarrow> settled s x"
  by (simp add: in_flight_def settled_def)

lemma settled_reset: "settled s x \<Longrightarrow> settled s (x\<lparr>retryCount := 0\<rparr>)"
  by (simp add: settled_def untouched_def)

lemma settled_catch_error: "in_flight s x \<Longrightarrow> settled s (catch_error h e x)"
  by (auto simp: in_flight_def settled_def untouched_def catch_error_def setNfcState_def
      setTimeout_def Let_def)

lemma settled_checkNfc:
  assumes "\<not> unmounted s"
  shows "settled s (checkNfc h a s)"
proof -
  have s: "in_flight s s"
    using assms by (simp add: in_flight_def untouched_def)
  obtain r s1 where i: "initializeNfcManager h (req a) s = (r, s1)"
    by (cases "initializeNfcManager h (req a) s")
  have s1: "in_flight s s1"
    using in_flight_init [OF s, of h "req a"] i by simp
  show ?thesis
    using s s1 i
    by (simp add: checkNfc_def Let_def catch_enableError_def catch_startError_def
        in_flight_call in_flight_await settled_set settled_keep settled_reset settled_catch_error
        split: sum.splits)
qed

lemma fire_history:
  assumes "\<not> module_isExpoGo h" "consistent s" "isMounted s" "teardown a = None"
  shows "history (fire h a s) = history s @ [emitted (first_failure (NfcManager s) a) (nfcState s)]"
proof -
  let ?s0 = "s\<lparr>armed := []\<rparr>"
  have m: "isMounted ?s0" "\<not> unmounted ?s0" "\<not> isInitializing ?s0"
    using assms(2,3) by (simp_all add: consistent_def)
  show ?thesis
    unfolding fire_def using checkNfc_mounted(2) [OF assms(1) m assms(4)] by simp
qed

lemma run_fire_scheduled:
  assumes "\<not> module_isExpoGo h" "\<forall>a\<in>set (a0 # as). teardown a = None" "consistent s" "isMounted s"
  shows "scheduled (run_timers h as (fire h a0 s)) =
      scheduled s @ replicate (min (3 - retryCount s) (init_failures (NfcManager s) (a0 # as))) 2000"
proof -
  have td: "teardown a0 = None" "\<forall>a\<in>set as. teardown a = None"
    using assms(2) by simp_all
  note f = fire_facts [OF assms(1,3,4) td(1)]
  show ?thesis
  proof (cases "retryable (first_failure (NfcManager s) a0) \<and> retryCount s < 3")
    case True
    then have ar: "armed (fire h a0 s) \<noteq> []" using f(5) by simp
    have ne: "first_failure (NfcManager s) a0 \<noteq> None" using True by (simp add: retryable_Some)
    have "min (3 - retryCount s) (Suc n) = Suc (min (3 - Suc (retryCount s)) n)" for n
      using True by arith
    then show ?thesis
      using run_timers_scheduled [OF assms(1) td(2) f(1,2) ar] True ne f(4,6,7)
      by (simp add: replicate_append_same)
  next
    case False
    then have "armed (fire h a0 s) = []" using f(5) by blast
    then have "run_timers h as (fire h a0 s) = fire h a0 s" by (rule run_timers_idle)
    then show ?thesis
      using False f(4) by auto
  qed
qed

lemma run_fire_history:
  assumes nx: "\<not> module_isExpoGo h"
  shows "\<forall>a\<in>set (a0 # as). teardown a = None \<Longrightarrow> consistent s \<Longrightarrow> isMounted s \<Longrightarrow>
    length (history (run_timers h as (fire h a0 s))) =
      Suc (length (history s)) +
      min (length as) (min (3 - retryCount s) (init_failures (NfcManager s) (a0 # as)))"
proof (induction as arbitrary: s a0)
  case Nil
  then show ?case
    using fire_history [OF nx Nil(2,3)] by simp
next
  case (Cons a as)
  have td: "teardown a0 = None" "teardown a = None" "\<forall>b\<in>set (a # as). teardown b = None"
    using Cons.prems(1) by simp_all
  note f = fire_facts [OF nx Cons.prems(2,3) td(1)]
  note fh = fire_history [OF nx Cons.prems(2,3) td(1)]
  show ?case
  proof (cases "retryable (first_failure (NfcManager s) a0) \<and> retryCount s < 3")
    case True
    then have ar: "armed (fire h a0 s) \<noteq> []" using f(5) by simp
    have ne: "first_failure (NfcManager s) a0 \<noteq> None" using True by (simp add: retryable_Some)
    have step: "run_timers h (a # as) (fire h a0 s) = run_timers h as (fire h a (fire h a0 s))"
      using f(1) ar td(2) by (intro run_timers_step)
    define N where "N = init_failures (NfcManager (fire h a0 s)) (a # as)"
    have ih: "length (history (run_timers h as (fire h a (fire h a0 s)))) =
        Suc (length (history (fire h a0 s))) + min (length as) (min (3 - retryCount (fire h a0 s)) N)"
      unfolding N_def using td(3) f(1,2) by (intro Cons.IH)
    have rc: "retryCount (fire h a0 s) = Suc (retryCount s)"
      using True ne f(6) by simp
    have n: "init_failures (NfcManager s) (a0 # a # as) = Suc N"
      unfolding N_def using True f(7) by simp
    have hl: "length (history (fire h a0 s)) = Suc (length (history s))"
      using fh by simp
    have "length (history (run_timers h (a # as) (fire h a0 s))) =
        Suc (Suc (length (history s))) + min (length as) (min (3 - Suc (retryCount s)) N)"
      using step ih rc hl by simp
    also have "\<dots> = Suc (length (history s)) +
        min (length (a # as)) (min (3 - retryCount s) (Suc N))"
      using True by (simp only: list.size length_Cons) arith
    finally show ?thesis
      using n by simp
  next
    case False
    then have "armed (fire h a0 s) = []" using f(5) by blast
    then have "run_timers h (a # as) (fire h a0 s) = fire h a0 s" by (rule run_timers_idle)
    then show ?thesis
      using False fh by auto
  qed
qed

lemma run_fire_exhausted:
  assumes nx: "\<not> module_isExpoGo h"
  shows "\<forall>a\<in>set (a0 # as). teardown a = None \<Longrightarrow> consistent s \<Longrightarrow> isMounted s \<Longrightarrow>
    3 - retryCount s < init_failures (NfcManager s) (a0 # as) \<Longrightarrow>
    armed (run_timers h as (fire h a0 s)) = [] \<and> retryCount (run_timers h as (fire h a0 s)) = 3"
proof (induction as arbitrary: s a0)
  case Nil
  have td: "teardown a0 = None" using Nil(1) by simp
  note f = fire_facts [OF nx Nil(2,3) td]
  have r: "retryable (first_failure (NfcManager s) a0)" "retryCount s = 3"
    using Nil(2,4) by (auto simp: consistent_def maxRetries_def split: if_splits)
  then have "armed (fire h a0 s) = []" using f(5) by simp
  then show ?case
    using r f(6) retryable_Some [OF r(1)] by simp
next
  case (Cons a as)
  have td: "teardown a0 = None" "teardown a = None" "\<forall>b\<in>set (a # as). teardown b = None"
    using Cons.prems(1) by simp_all
  note f = fire_facts [OF nx Cons.prems(2,3) td(1)]
  have r: "retryable (first_failure (NfcManager s) a0)" "retryCount s \<le> 3"
    using Cons.prems(2,4) by (auto simp: consistent_def maxRetries_def split: if_splits)
  note ne = retryable_Some [OF r(1)]
  show ?case
  proof (cases "retryCount s < 3")
    case True
    then have ar: "armed (fire h a0 s) \<noteq> []" using f(5) r by simp
    have step: "run_timers h (a # as) (fire h a0 s) = run_timers h as (fire h a (fire h a0 s))"
      using f(1) ar td(2) by (intro run_timers_step)
    have "3 - retryCount (fire h a0 s) < init_failures (NfcManager (fire h a0 s)) (a # as)"
      using Cons.prems(4) True r ne f(6,7) by (simp split: if_splits)
    then have "armed (run_timers h as (fire h a (fire h a0 s))) = [] \<and>
        retryCount (run_timers h as (fire h a (fire h a0 s))) = 3"
      using td(3) f(1,2) by (intro Cons.IH)
    then show ?thesis
      using step by simp
  next
    case False
    then have "armed (fire h a0 s) = []" using f(5) by blast
    then have "run_timers h (a # as) (fire h a0 s) = fire h a0 s" "armed (fire h a0 s) = []"
      by (simp_all add: run_timers_idle)
    then show ?thesis
      using False r ne f(6) by simp
  qed
qed

lemma last_run_retryable:
  "3 - c < init_failures m (a # as) \<Longrightarrow>
   retryable (first_failure (fst (last_run c m a as)) (snd (last_run c m a as)))"
proof (induction as arbitrary: c m a)
  case Nil
  then show ?case by (simp split: if_splits)
next
  case (Cons b bs)
  have r: "retryable (first_failure m a)"
    using Cons.prems by (simp split: if_splits)
  show ?case
  proof (cases "c < 3")
    case True
    have "3 - Suc c < init_failures (m \<or> req a = Inr True) (b # bs)"
      using Cons.prems True r by (simp split: if_splits)
    then show ?thesis
      using Cons.IH True r by (simp add: maxRetries_def)
  next
    case False
    then show ?thesis using r by (simp add: maxRetries_def)
  qed
qed

lemma App_effect_fire:
  "teardown a = None \<Longrightarrow> App_effect h m a as = run_timers h as (fire h a (mount h m))"
  by (simp add: App_effect_def fire_def mount_def Let_def)

lemma mount_facts:
  "consistent (mount h m)" "isMounted (mount h m)" "retryCount (mount h m) = 0"
  "NfcManager (mount h m) = m" "scheduled (mount h m) = []" "length (history (mount h m)) = 1"
  using quiet_mount [of h m] by (simp_all add: quiet_def mount_def Let_def)

lemma error_emitted: "error (emitted r prev) = map_option error_text r"
  by (simp add: emitted_def patch_def split: option.splits)

lemma loading_emitted: "loading (emitted r prev) = False"
  by (simp add: emitted_def patch_def split: option.splits)

section \<open>The claims\<close>

text \<open>
  C1. In every invocation the \<open>error\<close> field of the state left behind is the message of the
  first step, in the order initialisation, \<open>isSupported()\<close>, \<open>isEnabled()\<close>, \<open>start()\<close>, that
  fails or answers no, and is null when none does; what the later steps would have done
  is never reported. This holds for an invocation of the retry variant from any mounted
  state, for the state at the end of a whole run of the retry variant (where the last
  invocation decides), and for App_new.js, where a negative answer is no error.
\<close>

theorem first_failure_reported:
  assumes "\<not> module_isExpoGo h" "\<forall>b\<in>set (a # as). teardown b = None"
    and "isMounted s" "\<not> unmounted s" "\<not> isInitializing s"
    and "NfcManager t"
  shows "error (nfcState (checkNfc h a s)) = map_option error_text (first_failure (NfcManager s) a)
         \<and> error (nfcState (App_effect h m a as)) =
             map_option error_text
               (first_failure (fst (last_run 0 m a as)) (snd (last_run 0 m a as)))
         \<and> error (nfcState (checkNfc_new a t)) = Option.bind (first_failure True a) error_text_new"
proof -
  have td: "teardown a = None" "\<forall>b\<in>set as. teardown b = None"
    using assms(2) by simp_all
  have "error (nfcState (checkNfc h a s)) = map_option error_text (first_failure (NfcManager s) a)"
    using checkNfc_mounted(1) [OF assms(1,3,4,5) td(1)] by (simp add: error_emitted)
  moreover have "nfcState (App_effect h m a as) =
      emitted (first_failure (fst (last_run 0 m a as)) (snd (last_run 0 m a as)))
        (nfcState (mount h m))"
    using run_timers_last [OF assms(1) td(2) mount_facts(1) [of h m] mount_facts(2) [of h m] td(1)]
    by (simp add: App_effect_fire [OF td(1)] mount_facts split: prod.splits)
  moreover have "error (nfcState (checkNfc_new a t)) =
      Option.bind (first_failure True a) error_text_new"
    using assms(6) by (simp add: new_defs first_failure_def Let_def split: sum.splits)
  ultimately show ?thesis
    by (simp add: error_emitted)
qed

text \<open>
  An example where all three provider calls would reject: only the first is reported. In
  the run, the retry meets a failing status check.
\<close>

theorem first_failure_reported_witness:
  "error (nfcState (checkNfc android all_reject (mount android False))) = Some ''not ready''
   \<and> error (nfcState (App_effect android False all_reject [status_error])) =
       Some ''Failed to check NFC status: undefined''
   \<and> error (nfcState (checkNfc_new all_reject (mount_new True))) = Some ''not ready''"
proof -
  have h: "\<not> module_isExpoGo android" "\<forall>b\<in>set [all_reject, status_error]. teardown b = None"
    "isMounted (mount android False)" "\<not> unmounted (mount android False)"
    "\<not> isInitializing (mount android False)" "NfcManager (mount_new True)"
    by (simp_all add: android_def module_isExpoGo_def all_reject_def status_error_def ready_def
        mount_def mount_new_def Let_def)
  have ff: "first_failure False all_reject = Some (InitFailed (Error (Some ''not ready'')))"
    "first_failure True all_reject = Some (InitFailed (Error (Some ''not ready'')))"
    "first_failure True status_error = Some (StatusCheckFailed (Error None))"
    "req all_reject = Inr True"
    by (simp_all add: first_failure_def all_reject_def status_error_def ready_def)
  show ?thesis
    using first_failure_reported [OF h, where m = False] ff
    by (simp add: mount_facts maxRetries_def or_default_def plus_message_def)
qed

text \<open>
  C2, as stated, fails in App_new.js, which has no retry: after one initialisation failure
  no timer is scheduled.
\<close>

theorem init_failure_retries_counterexample:
  "init_failures True [not_ready] = 1
   \<and> length (scheduled (App_effect_new True not_ready)) \<noteq> min 3 (init_failures True [not_ready])"
  by (simp add: not_ready_def ready_def first_failure_def App_effect_new_def mount_new_def
      new_defs Let_def)

text \<open>
  C2, amended. In the retry variant, when no teardown intervenes, the number of retries
  scheduled is the minimum of 3 and the number of consecutive initialisation failures,
  each with a delay of 2000 ms; as many invocations follow the first as the script lets
  fire. When the third retry fails as well, the state is that initialisation failure with
  \<open>loading\<close> false, the counter is 3 and no timer is armed. App_new.js never schedules
  a timer and emits exactly one state.
\<close>

theorem init_failure_retries:
  assumes "\<not> module_isExpoGo h" "\<forall>b\<in>set (a # as). teardown b = None"
  shows "scheduled (App_effect h m a as) = replicate (min 3 (init_failures m (a # as))) 2000
         \<and> length (history (App_effect h m a as)) =
             2 + min (length as) (min 3 (init_failures m (a # as)))
         \<and> (3 < init_failures m (a # as) \<longrightarrow>
              armed (App_effect h m a as) = [] \<and> retryCount (App_effect h m a as) = 3
              \<and> retryable (first_failure (fst (last_run 0 m a as)) (snd (last_run 0 m a as)))
              \<and> nfcState (App_effect h m a as) =
                  emitted (first_failure (fst (last_run 0 m a as)) (snd (last_run 0 m a as)))
                    (nfcState (mount h m))
              \<and> loading (nfcState (App_effect h m a as)) = False)
         \<and> scheduled (App_effect_new n b) = [] \<and> armed (App_effect_new n b) = []
         \<and> length (history (App_effect_new n b)) = 2"
proof -
  have td: "teardown a = None" "\<forall>b\<in>set as. teardown b = None"
    using assms(2) by simp_all
  note run = App_effect_fire [OF td(1), of h m as]
  have 1: "scheduled (App_effect h m a as) = replicate (min 3 (init_failures m (a # as))) 2000"
    using run_fire_scheduled [OF assms mount_facts(1) [of h m] mount_facts(2) [of h m]]
    by (simp only: run mount_facts) simp
  have 2: "length (history (App_effect h m a as)) =
      2 + min (length as) (min 3 (init_failures m (a # as)))"
    using run_fire_history [OF assms mount_facts(1) [of h m] mount_facts(2) [of h m]]
    by (simp add: run mount_facts)
  have st: "nfcState (App_effect h m a as) =
      emitted (first_failure (fst (last_run 0 m a as)) (snd (last_run 0 m a as)))
        (nfcState (mount h m))"
    using run_timers_last [OF assms(1) td(2) mount_facts(1) [of h m] mount_facts(2) [of h m] td(1)]
    by (simp add: run mount_facts split: prod.splits)
  have 3: "armed (App_effect h m a as) = [] \<and> retryCount (App_effect h m a as) = 3
      \<and> retryable (first_failure (fst (last_run 0 m a as)) (snd (last_run 0 m a as)))"
    if "3 < init_failures m (a # as)"
  proof -
    have "3 - retryCount (mount h m) < init_failures (NfcManager (mount h m)) (a # as)"
      using that by (simp add: mount_facts)
    then have "armed (App_effect h m a as) = [] \<and> retryCount (App_effect h m a as) = 3"
      using run_fire_exhausted [OF assms mount_facts(1) [of h m] mount_facts(2) [of h m]] by (simp only: run)
    moreover have "retryable (first_failure (fst (last_run 0 m a as)) (snd (last_run 0 m a as)))"
      using that by (intro last_run_retryable) simp
    ultimately show ?thesis by simp
  qed
  have 4: "scheduled (App_effect_new n b) = []" "armed (App_effect_new n b) = []"
      "length (history (App_effect_new n b)) = 2"
    by (simp_all add: App_effect_new_def mount_new_def new_defs Let_def split: sum.splits)
  show ?thesis
    using 1 2 3 4 st by (simp add: loading_emitted)
qed

theorem init_failure_retries_witness:
  "init_failures False [not_ready, not_ready, not_ready, not_ready, ready] = 4
   \<and> scheduled (App_effect android False not_ready [not_ready, not_ready, not_ready, ready]) =
       [2000, 2000, 2000]
   \<and> length (history (App_effect android False not_ready [not_ready, not_ready, not_ready, ready])) = 5
   \<and> armed (App_effect android False not_ready [not_ready, not_ready, not_ready, ready]) = []
   \<and> retryCount (App_effect android False not_ready [not_ready, not_ready, not_ready, ready]) = 3
   \<and> error (nfcState (App_effect android False not_ready [not_ready, not_ready, not_ready, ready])) =
       Some ''not ready''
   \<and> loading (nfcState (App_effect android False not_ready [not_ready, not_ready, not_ready, ready])) =
       False
   \<and> scheduled (App_effect_new True not_ready) = []"
proof -
  have h: "\<not> module_isExpoGo android"
    "\<forall>b\<in>set [not_ready, not_ready, not_ready, not_ready, ready]. teardown b = None"
    by (simp_all add: android_def module_isExpoGo_def not_ready_def ready_def)
  have ff: "first_failure False not_ready = Some (InitFailed (Error (Some ''not ready'')))"
    "first_failure True not_ready = Some (InitFailed (Error (Some ''not ready'')))"
    "first_failure True ready = None" "req not_ready = Inr True"
    by (simp_all add: first_failure_def not_ready_def ready_def)
  have n: "init_failures False [not_ready, not_ready, not_ready, not_ready, ready] = 4"
    using ff by simp
  have l: "last_run 0 False not_ready [not_ready, not_ready, not_ready, ready] = (True, not_ready)"
    using ff by (simp add: maxRetries_def)
  have rep: "replicate 3 (2000::nat) = [2000, 2000, 2000]"
    by (simp add: numeral_3_eq_3)
  show ?thesis
    using init_failure_retries [OF h, where m = False and n = True and b = not_ready]
    unfolding n l
    by (simp add: ff(2) error_emitted loading_emitted or_default_def rep)
qed

text \<open>
  C3. If the module-level flag \<open>isExpoGo\<close> is true, the effect leaves exactly one state after
  the initial one: not supported, not enabled, not loading, with the Expo Go message. No
  \<open>isSupported\<close>, \<open>isEnabled\<close> or \<open>start\<close> call is made (the only provider call possible is
  the cancel request of the cleanup function, when the handle is set), and no timer is
  scheduled, whatever the script. A single invocation from any state makes no provider
  call and schedules nothing either.
\<close>

theorem restricted_host:
  assumes "module_isExpoGo h"
  shows "nfcState (App_effect h m a as) =
           \<lparr>isSupported = False, isEnabled = False,
            error = Some ''NFC is not supported in Expo Go. Please use a development build.'',
            loading = False, platform = Platform_OS h, isExpoGo = True\<rparr>
         \<and> history (App_effect h m a as) = [nfcState (mount h m), nfcState (App_effect h m a as)]
         \<and> calls (App_effect h m a as) =
             (if teardown a = Some AfterReturn \<and> m then [CancelTechnologyRequest] else [])
         \<and> scheduled (App_effect h m a as) = [] \<and> armed (App_effect h m a as) = []
         \<and> calls (checkNfc h a s) = calls s \<and> scheduled (checkNfc h a s) = scheduled s
         \<and> armed (checkNfc h a s) = armed s"
proof -
  let ?s1 = "await AfterReturn a (checkNfc h a (mount h m))"
  have idle: "armed ?s1 = []"
    using assms
    by (simp add: checkNfc_def setNfcState_def await_def cleanup_def call_def mount_def Let_def)
  have run: "App_effect h m a as = ?s1"
    unfolding App_effect_def using idle by (rule run_timers_idle)
  have "nfcState ?s1 =
           \<lparr>isSupported = False, isEnabled = False,
            error = Some ''NFC is not supported in Expo Go. Please use a development build.'',
            loading = False, platform = Platform_OS h, isExpoGo = True\<rparr>"
    using assms
    by (simp add: checkNfc_def setNfcState_def await_def cleanup_def call_def mount_def patch_def
        Let_def)
  moreover have "history ?s1 = [nfcState (mount h m), nfcState ?s1]"
    using assms
    by (simp add: checkNfc_def setNfcState_def await_def cleanup_def call_def mount_def Let_def)
  moreover have "calls ?s1 =
      (if teardown a = Some AfterReturn \<and> m then [CancelTechnologyRequest] else [])"
    using assms
    by (simp add: checkNfc_def setNfcState_def await_def cleanup_def call_def mount_def Let_def)
  moreover have "scheduled ?s1 = []"
    using assms
    by (simp add: checkNfc_def setNfcState_def await_def cleanup_def call_def mount_def Let_def)
  moreover have "calls (checkNfc h a s) = calls s" "scheduled (checkNfc h a s) = scheduled s"
      "armed (checkNfc h a s) = armed s"
    using assms by (simp_all add: checkNfc_def setNfcState_def)
  ultimately show ?thesis
    using run idle by simp
qed

theorem restricted_host_witness:
  "module_isExpoGo expo_go
   \<and> error (nfcState (App_effect expo_go False ready [ready])) =
       Some ''NFC is not supported in Expo Go. Please use a development build.''
   \<and> calls (App_effect expo_go False ready [ready]) = []
   \<and> scheduled (App_effect expo_go False ready [ready]) = []"
  using restricted_host [of expo_go False ready "[ready]"]
  by (simp add: expo_go_def ready_def module_isExpoGo_def)

text \<open>
  C4, as stated, fails in App_new.js: there a disabled radio is reported through the flags
  only and the \<open>error\<close> field is null.
\<close>

theorem radio_disabled_counterexample:
  "sup radio_off = Inr True \<and> ena radio_off = Inr False
   \<and> error (nfcState (App_effect_new True radio_off)) = None"
  by (simp add: radio_off_def ready_def App_effect_new_def mount_new_def new_defs Let_def)

text \<open>
  C4, amended. If \<open>isSupported()\<close> resolves true and \<open>isEnabled()\<close> resolves false, both
  variants leave a state that is supported, not enabled and not loading, and neither
  schedules a retry. In the retry variant the \<open>error\<close> field holds the message that NFC is
  not enabled; in App_new.js it is null.
\<close>

theorem radio_disabled:
  assumes "sup a = Inr True" "ena a = Inr False"
    and "teardown a = None" "\<not> module_isExpoGo h"
    and "isMounted s" "\<not> unmounted s" "\<not> isInitializing s" "NfcManager s \<or> req a = Inr True"
    and "NfcManager t"
  shows "nfcState (checkNfc h a s) =
           (nfcState s)\<lparr>isSupported := True, isEnabled := False,
              error := Some ''NFC is not enabled. Please enable NFC in your device settings.'',
              loading := False\<rparr>
         \<and> scheduled (checkNfc h a s) = scheduled s \<and> armed (checkNfc h a s) = armed s
         \<and> nfcState (checkNfc_new a t) =
             \<lparr>isSupported = True, isEnabled = False, error = None, loading = False\<rparr>
         \<and> scheduled (checkNfc_new a t) = scheduled t \<and> armed (checkNfc_new a t) = armed t"
proof -
  have ff: "first_failure (NfcManager s) a = Some RadioDisabled"
    using assms by (auto simp: first_failure_def)
  note f = checkNfc_mounted [OF assms(4,5,6,7,3)]
  have "nfcState (checkNfc h a s) =
           (nfcState s)\<lparr>isSupported := True, isEnabled := False,
              error := Some ''NFC is not enabled. Please enable NFC in your device settings.'',
              loading := False\<rparr>"
    using f(1) ff by (simp add: emitted_def patch_def)
  moreover have "scheduled (checkNfc h a s) = scheduled s" "armed (checkNfc h a s) = armed s"
    using f(3,4) ff by simp_all
  moreover have "nfcState (checkNfc_new a t) =
             \<lparr>isSupported = True, isEnabled = False, error = None, loading = False\<rparr>"
       "scheduled (checkNfc_new a t) = scheduled t" "armed (checkNfc_new a t) = armed t"
    using assms by (simp_all add: new_defs Let_def)
  ultimately show ?thesis by simp
qed

theorem radio_disabled_witness:
  "nfcState (checkNfc android radio_off (mount android False)) =
      \<lparr>isSupported = True, isEnabled = False,
       error = Some ''NFC is not enabled. Please enable NFC in your device settings.'',
       loading = False, platform = ''android'', isExpoGo = False\<rparr>
   \<and> scheduled (checkNfc android radio_off (mount android False)) = []
   \<and> nfcState (checkNfc_new radio_off (mount_new True)) =
      \<lparr>isSupported = True, isEnabled = False, error = None, loading = False\<rparr>"
  using radio_disabled [of radio_off android "mount android False" "mount_new True"]
  by (simp add: radio_off_def ready_def android_def mount_def mount_new_def module_isExpoGo_def
      Let_def)

text \<open>
  C5. If \<open>isSupported()\<close> and \<open>isEnabled()\<close> resolve true and \<open>start()\<close> resolves, the state
  is supported, enabled, without error and not loading in both variants, and the retry
  variant sets its retry counter to 0, whatever it was.
\<close>

theorem started:
  assumes "sup a = Inr True" "ena a = Inr True" "sta a = Inr ()"
    and "teardown a = None" "\<not> module_isExpoGo h"
    and "isMounted s" "\<not> unmounted s" "\<not> isInitializing s" "NfcManager s \<or> req a = Inr True"
    and "NfcManager t"
  shows "nfcState (checkNfc h a s) =
           (nfcState s)\<lparr>isSupported := True, isEnabled := True, error := None, loading := False\<rparr>
         \<and> retryCount (checkNfc h a s) = 0
         \<and> scheduled (checkNfc h a s) = scheduled s \<and> armed (checkNfc h a s) = armed s
         \<and> nfcState (checkNfc_new a t) =
             \<lparr>isSupported = True, isEnabled = True, error = None, loading = False\<rparr>"
proof -
  have ff: "first_failure (NfcManager s) a = None"
    using assms by (auto simp: first_failure_def)
  note f = checkNfc_mounted [OF assms(5,6,7,8,4)]
  have "nfcState (checkNfc h a s) =
           (nfcState s)\<lparr>isSupported := True, isEnabled := True, error := None, loading := False\<rparr>"
    using f(1) ff by (simp add: emitted_def patch_def)
  moreover have "scheduled (checkNfc h a s) = scheduled s" "armed (checkNfc h a s) = armed s"
      "retryCount (checkNfc h a s) = 0"
    using f(3,4,6) ff by simp_all
  moreover have "nfcState (checkNfc_new a t) =
             \<lparr>isSupported = True, isEnabled = True, error = None, loading = False\<rparr>"
    using assms by (simp_all add: new_defs Let_def)
  ultimately show ?thesis by simp
qed

theorem started_witness:
  "nfcState (checkNfc android ready ((mount android True)\<lparr>retryCount := 3\<rparr>)) =
      \<lparr>isSupported = True, isEnabled = True, error = None, loading = False,
       platform = ''android'', isExpoGo = False\<rparr>
   \<and> retryCount (checkNfc android ready ((mount android True)\<lparr>retryCount := 3\<rparr>)) = 0
   \<and> nfcState (checkNfc_new ready (mount_new True)) =
      \<lparr>isSupported = True, isEnabled = True, error = None, loading = False\<rparr>"
  using started [of ready android "(mount android True)\<lparr>retryCount := 3\<rparr>" "mount_new True"]
  by (simp add: ready_def android_def mount_def mount_new_def module_isExpoGo_def Let_def)

text \<open>
  C6. If \<open>isSupported()\<close> and \<open>isEnabled()\<close> resolve to true and \<open>start()\<close> throws an error
  with message "busy", the state after the invocation is supported, enabled, not loading,
  with the error "Failed to start NFC: busy", and no retry is scheduled. This holds in both
  variants; in the retry variant from every mounted state (any retry count), whether the
  manager handle is already set or \<open>require\<close> yields it now.
\<close>

theorem start_failure_busy:
  assumes "sup a = Inr True" "ena a = Inr True" "sta a = Inl (Error (Some ''busy''))"
    and "teardown a = None" "\<not> module_isExpoGo h"
    and "isMounted s" "\<not> unmounted s" "\<not> isInitializing s" "NfcManager s \<or> req a = Inr True"
    and "NfcManager t"
  shows "nfcState (checkNfc h a s) =
           (nfcState s)\<lparr>isSupported := True, isEnabled := True,
                        error := Some ''Failed to start NFC: busy'', loading := False\<rparr>
         \<and> scheduled (checkNfc h a s) = scheduled s \<and> armed (checkNfc h a s) = armed s
         \<and> nfcState (checkNfc_new a t) =
             \<lparr>isSupported = True, isEnabled = True,
              error = Some ''Failed to start NFC: busy'', loading = False\<rparr>
         \<and> scheduled (checkNfc_new a t) = scheduled t \<and> armed (checkNfc_new a t) = armed t"
proof -
  have ff: "first_failure (NfcManager s) a = Some (StartFailed (Error (Some ''busy'')))"
    using assms by (auto simp: first_failure_def)
  note f = checkNfc_mounted [OF assms(5,6,7,8,4)]
  have "nfcState (checkNfc h a s) =
           (nfcState s)\<lparr>isSupported := True, isEnabled := True,
                        error := Some ''Failed to start NFC: busy'', loading := False\<rparr>"
    using f(1) ff by (simp add: emitted_def patch_def plus_message_def)
  moreover have "scheduled (checkNfc h a s) = scheduled s" "armed (checkNfc h a s) = armed s"
    using f(3,4) ff by simp_all
  moreover have "nfcState (checkNfc_new a t) =
             \<lparr>isSupported = True, isEnabled = True,
              error = Some ''Failed to start NFC: busy'', loading = False\<rparr>"
       "scheduled (checkNfc_new a t) = scheduled t" "armed (checkNfc_new a t) = armed t"
    using assms by (simp_all add: new_defs Let_def plus_message_def)
  ultimately show ?thesis by simp
qed

text \<open>The example of the specification, run from mount in both variants.\<close>

theorem start_failure_busy_witness:
  "nfcState (App_effect android False busy []) =
     \<lparr>isSupported = True, isEnabled = True, error = Some ''Failed to start NFC: busy'',
      loading = False, platform = ''android'', isExpoGo = False\<rparr>
   \<and> scheduled (App_effect android False busy []) = []
   \<and> nfcState (App_effect_new True busy) =
     \<lparr>isSupported = True, isEnabled = True, error = Some ''Failed to start NFC: busy'',
      loading = False\<rparr>"
  using start_failure_busy [of busy android "mount android False" "mount_new True"]
  by (simp add: busy_def ready_def android_def mount_def mount_new_def App_effect_def
      App_effect_new_def module_isExpoGo_def await_def await_new_def Let_def)

text \<open>
  C7. In every state the component ever holds, in both variants and for every script
  (responses and teardown), \<open>isEnabled\<close> is true only if \<open>isSupported\<close> is.
\<close>

theorem enabled_only_if_supported:
  "list_all (\<lambda>st. isEnabled st \<longrightarrow> isSupported st) (history (App_effect h m a as))
   \<and> list_all (\<lambda>st. isEnabled st \<longrightarrow> isSupported st) (history (App_effect_new n b))"
proof -
  have "hist_all (\<lambda>st. isEnabled st \<longrightarrow> isSupported st) (App_effect h m a as)"
    by (rule hist_all_App_effect) (auto simp: patch_def mount_def Let_def)
  moreover have "hist_all (\<lambda>st. isEnabled st \<longrightarrow> isSupported st) (mount_new n)"
    by (simp add: hist_all_def mount_new_def Let_def)
  then have "hist_all (\<lambda>st. isEnabled st \<longrightarrow> isSupported st) (checkNfc_new b (mount_new n))"
    by (rule hist_all_checkNfc_new)
  then have "hist_all (\<lambda>st. isEnabled st \<longrightarrow> isSupported st) (App_effect_new n b)"
    by (simp add: App_effect_new_def hist_all_def await_new_def cleanup_new_def call_def Let_def)
  ultimately show ?thesis
    by (simp add: hist_all_def)
qed

theorem enabled_only_if_supported_witness:
  "length (history (App_effect android False not_ready [busy])) = 3
   \<and> isEnabled (last (history (App_effect android False not_ready [busy])))
   \<and> list_all (\<lambda>st. isEnabled st \<longrightarrow> isSupported st)
       (history (App_effect android False not_ready [busy]))
   \<and> list_all (\<lambda>st. isEnabled st \<longrightarrow> isSupported st) (history (App_effect_new True busy))"
  using enabled_only_if_supported [of android False not_ready "[busy]" True busy]
  by (simp add: App_effect_def mount_def not_ready_def busy_def ready_def android_def
      module_isExpoGo_def retry_defs patch_def Let_def)

text \<open>
  C8, as stated, fails in App_new.js, which has no liveness flag: when the component is
  torn down while \<open>isSupported()\<close> is in flight, the state setter is still called once the
  call resolves.
\<close>

theorem no_update_after_teardown_counterexample:
  "teardown left_early = Some AtSupported
   \<and> unmounted (App_effect_new True left_early)
   \<and> late_updates (App_effect_new True left_early) = 1
   \<and> history (App_effect_new True left_early) =
       [\<lparr>isSupported = False, isEnabled = False, error = None, loading = True\<rparr>,
        \<lparr>isSupported = True, isEnabled = True, error = None, loading = False\<rparr>]"
  by (simp add: left_early_def ready_def App_effect_new_def mount_new_def new_defs Let_def)

text \<open>
  C8, amended. In the retry variant, an invocation during which the cleanup runs emits no
  state and schedules no timer; over a whole run the state setter is never called after
  the cleanup; and once the component is unmounted no timer is armed, so that nothing
  happens whatever the rest of the script. App_new.js has neither flag nor timer: a
  provider call that settles after the teardown is followed by a call of the state setter.
\<close>

theorem no_update_after_teardown:
  "(\<not> unmounted s \<and> unmounted (checkNfc h a s) \<longrightarrow>
      nfcState (checkNfc h a s) = nfcState s \<and> history (checkNfc h a s) = history s
      \<and> scheduled (checkNfc h a s) = scheduled s)
   \<and> late_updates (App_effect h m a as) = 0
   \<and> (unmounted (App_effect h m a as) \<longrightarrow>
        \<not> isMounted (App_effect h m a as) \<and> armed (App_effect h m a as) = []
        \<and> run_timers h bs (App_effect h m a as) = App_effect h m a as)
   \<and> (NfcManager t \<and> \<not> unmounted t \<and> teardown b = Some AtSupported \<longrightarrow>
        late_updates (checkNfc_new b t) = Suc (late_updates t))"
proof -
  have "settled s (checkNfc h a s)" if "\<not> unmounted s"
    using that by (rule settled_checkNfc)
  then have 1: "\<not> unmounted s \<and> unmounted (checkNfc h a s) \<Longrightarrow>
      nfcState (checkNfc h a s) = nfcState s \<and> history (checkNfc h a s) = history s
         \<and> scheduled (checkNfc h a s) = scheduled s"
    by (simp add: settled_def untouched_def)
  have c: "consistent (App_effect h m a as)"
    by (rule consistent_App_effect)
  then have 2: "late_updates (App_effect h m a as) = 0"
    by (simp add: consistent_def)
  have 3: "\<not> isMounted (App_effect h m a as) \<and> armed (App_effect h m a as) = []
            \<and> run_timers h bs (App_effect h m a as) = App_effect h m a as"
    if "unmounted (App_effect h m a as)"
  proof -
    have "armed (App_effect h m a as) = []" "\<not> isMounted (App_effect h m a as)"
      using c that by (auto simp: consistent_def)
    then show ?thesis
      by (simp add: run_timers_idle)
  qed
  have 4: "late_updates (checkNfc_new b t) = Suc (late_updates t)"
    if "NfcManager t \<and> \<not> unmounted t \<and> teardown b = Some AtSupported"
    using that by (simp add: new_defs Let_def split: sum.splits)
  show ?thesis
    using 1 2 3 4 by simp
qed

theorem no_update_after_teardown_witness:
  "unmounted (App_effect android True left_early [ready])
   \<and> history (App_effect android True left_early [ready]) = history (mount android True)
   \<and> late_updates (App_effect android True left_early [ready]) = 0
   \<and> armed (App_effect android True left_early [ready]) = []
   \<and> late_updates (checkNfc_new left_early (mount_new True)) = 1"
  using no_update_after_teardown [of "mount android True" android left_early True "[ready]" "[]"
      "mount_new True" left_early]
  by (simp add: App_effect_def mount_def mount_new_def left_early_def ready_def android_def
      module_isExpoGo_def retry_defs patch_def Let_def)

text \<open>
  C9. If \<open>isSupported()\<close> resolves false, both variants leave a state that is not enabled
  and not loading and schedule no retry. In the retry variant this holds from every mounted
  state, so for every value of the retry counter, which stays as it was.
\<close>

theorem hardware_absent:
  assumes "sup a = Inr False" "teardown a = None" "\<not> module_isExpoGo h"
    and "isMounted s" "\<not> unmounted s" "\<not> isInitializing s" "NfcManager s \<or> req a = Inr True"
    and "NfcManager t"
  shows "nfcState (checkNfc h a s) =
           (nfcState s)\<lparr>isSupported := False, isEnabled := False,
                        error := Some ''This device does not have NFC hardware'',
                        loading := False\<rparr>
         \<and> scheduled (checkNfc h a s) = scheduled s \<and> armed (checkNfc h a s) = armed s
         \<and> retryCount (checkNfc h a s) = retryCount s
         \<and> nfcState (checkNfc_new a t) =
             \<lparr>isSupported = False, isEnabled = False, error = None, loading = False\<rparr>
         \<and> scheduled (checkNfc_new a t) = scheduled t \<and> armed (checkNfc_new a t) = armed t"
proof -
  have ff: "first_failure (NfcManager s) a = Some HardwareAbsent"
    using assms by (auto simp: first_failure_def)
  note f = checkNfc_mounted [OF assms(3,4,5,6,2)]
  have "nfcState (checkNfc h a s) =
           (nfcState s)\<lparr>isSupported := False, isEnabled := False,
                        error := Some ''This device does not have NFC hardware'',
                        loading := False\<rparr>"
    using f(1) ff by (simp add: emitted_def patch_def)
  moreover have "scheduled (checkNfc h a s) = scheduled s" "armed (checkNfc h a s) = armed s"
      "retryCount (checkNfc h a s) = retryCount s"
    using f(3,4,6) ff by simp_all
  moreover have "nfcState (checkNfc_new a t) =
             \<lparr>isSupported = False, isEnabled = False, error = None, loading = False\<rparr>"
       "scheduled (checkNfc_new a t) = scheduled t" "armed (checkNfc_new a t) = armed t"
    using assms by (simp_all add: new_defs Let_def)
  ultimately show ?thesis by simp
qed

theorem hardware_absent_witness:
  "isEnabled (nfcState (checkNfc android no_hardware ((mount android False)\<lparr>retryCount := 2\<rparr>))) = False
   \<and> loading (nfcState (checkNfc android no_hardware ((mount android False)\<lparr>retryCount := 2\<rparr>))) = False
   \<and> scheduled (checkNfc android no_hardware ((mount android False)\<lparr>retryCount := 2\<rparr>)) = []
   \<and> isEnabled (nfcState (checkNfc_new no_hardware (mount_new True))) = False"
  using hardware_absent [of no_hardware android "(mount android False)\<lparr>retryCount := 2\<rparr>"
      "mount_new True"]
  by (simp add: no_hardware_def ready_def android_def mount_def mount_new_def
      module_isExpoGo_def Let_def)

text \<open>
  C10. In the retry variant every state the component holds during a run, whatever the
  script, has the \<open>platform\<close> and \<open>isExpoGo\<close> fields it had at mount.
\<close>

theorem platform_isExpoGo_unchanged:
  "list_all (\<lambda>st. platform st = Platform_OS h \<and> isExpoGo st = module_isExpoGo h)
     (history (App_effect h m a as))
   \<and> platform (nfcState (App_effect h m a as)) = Platform_OS h
   \<and> isExpoGo (nfcState (App_effect h m a as)) = module_isExpoGo h"
proof -
  have "hist_all (\<lambda>st. platform st = Platform_OS h \<and> isExpoGo st = module_isExpoGo h)
      (App_effect h m a as)"
    by (rule hist_all_App_effect) (auto simp: patch_def mount_def Let_def)
  then show ?thesis
    by (simp add: hist_all_def)
qed

theorem platform_isExpoGo_unchanged_witness:
  "map platform (history (App_effect android False not_ready [busy])) =
     [''android'', ''android'', ''android'']
   \<and> list_all (\<lambda>st. platform st = Platform_OS android \<and> isExpoGo st = module_isExpoGo android)
     (history (App_effect android False not_ready [busy]))"
  using platform_isExpoGo_unchanged [of android False not_ready "[busy]"]
  by (simp add: App_effect_def mount_def not_ready_def busy_def ready_def android_def
      module_isExpoGo_def retry_defs patch_def Let_def)

end
